theory Spec2Isabelle
  imports Main "HOL-Library.AList" "HOL-Library.Char_ord" "HOL-Library.List_Lexorder"
begin

section \<open>Values and exceptions\<close>

text \<open>
  The module \<^verbatim>\<open>valve/steam/api/interface.py\<close> raises \<^verbatim>\<open>NameError\<close>,
  \<^verbatim>\<open>ValueError\<close> and \<^verbatim>\<open>TypeError\<close>. Each constructor below is one \<^verbatim>\<open>raise\<close>
  site of the module, or of a built-in it calls, with the value the message is
  formatted from.
\<close>

datatype error =
    NameError_identifier string    \<comment> \<open>NameError: Cannot form valid Python identifier from ...\<close>
  | NameError_in_use string        \<comment> \<open>NameError: Parameter name ... already in use\<close>
  | ValueError_upper int           \<comment> \<open>ValueError: ... exceeds upper bound for uintNN\<close>
  | ValueError_lower int           \<comment> \<open>ValueError: ... below lower bound for uintNN\<close>
  | ValueError_literal string      \<comment> \<open>ValueError of the built-in int(): invalid literal\<close>
  | ValueError_formatter string    \<comment> \<open>ValueError: Response formatter specifies its format as ...\<close>
  | TypeError_missing string       \<comment> \<open>TypeError: Missing mandatory argument ...\<close>
  | TypeError_call string          \<comment> \<open>TypeError of the call protocol: missing or unexpected argument\<close>
  | TypeError_int                  \<comment> \<open>TypeError of the built-in int() on None\<close>
  | SyntaxError_compile string     \<comment> \<open>SyntaxError of the built-in compile()\<close>
  | KeyError_lookup string         \<comment> \<open>KeyError of a dictionary subscript\<close>
  | OutsideModel string            \<comment> \<open>a class attribute replaced by a synthesized method (see below)\<close>
  | TransportError string          \<comment> \<open>whatever the HTTP session raises\<close>
  | DecodeError string             \<comment> \<open>whatever the response formatter raises\<close>

datatype exception_class =
  NameError | ValueError | TypeError | SyntaxError | OtherError

fun class_of :: "error \<Rightarrow> exception_class" where
  "class_of (NameError_identifier _) = NameError"
| "class_of (NameError_in_use _) = NameError"
| "class_of (ValueError_upper _) = ValueError"
| "class_of (ValueError_lower _) = ValueError"
| "class_of (ValueError_literal _) = ValueError"
| "class_of (ValueError_formatter _) = ValueError"
| "class_of (TypeError_missing _) = TypeError"
| "class_of (TypeError_call _) = TypeError"
| "class_of TypeError_int = TypeError"
| "class_of (SyntaxError_compile _) = SyntaxError"
| "class_of (KeyError_lookup _) = OtherError"
| "class_of (OutsideModel _) = OtherError"
| "class_of (TransportError _) = OtherError"
| "class_of (DecodeError _) = OtherError"

text \<open>Argument values: \<^verbatim>\<open>None\<close>, an integer (unbounded) or a text string.\<close>

datatype pyval = PyNone | PyInt int | PyStr string

subsection \<open>The built-ins \<^verbatim>\<open>str\<close> and \<^verbatim>\<open>int\<close>\<close>

definition digit_char :: "nat \<Rightarrow> char" where
  "digit_char d = ''0123456789'' ! (d mod 10)"

fun str_nat :: "nat \<Rightarrow> string" where
  "str_nat n = (if n < 10 then [digit_char n] else str_nat (n div 10) @ [digit_char (n mod 10)])"

declare str_nat.simps [simp del]

definition str_int :: "int \<Rightarrow> string" where
  "str_int i = (if i < 0 then CHR ''-'' # str_nat (nat (- i)) else str_nat (nat i))"

fun py_str :: "pyval \<Rightarrow> string" where
  "py_str PyNone = ''None''"
| "py_str (PyInt i) = str_int i"
| "py_str (PyStr s) = s"

definition digit_val :: "char \<Rightarrow> nat option" where
  "digit_val c = (if c \<in> set ''0123456789'' then Some (of_char c - 48) else None)"

text \<open>
  \<^verbatim>\<open>int\<close> on text: white space around the literal is dropped, a sign may come
  first, and the decimal digits may be grouped by single underscores. The flag of
  \<open>read_digits\<close> says that the character before was a digit. (ASCII only.)
\<close>

definition is_space :: "char \<Rightarrow> bool" where
  "is_space c \<longleftrightarrow> c \<in> set [CHR 0x09, CHR 0x0A, CHR 0x0B, CHR 0x0C, CHR 0x0D,
                               CHR 0x1C, CHR 0x1D, CHR 0x1E, CHR 0x1F, CHR 0x20]"

definition strip :: "string \<Rightarrow> string" where
  "strip s = rev (dropWhile is_space (rev (dropWhile is_space s)))"

fun read_digits :: "nat \<Rightarrow> bool \<Rightarrow> string \<Rightarrow> nat option" where
  "read_digits acc after_digit [] = (if after_digit then Some acc else None)"
| "read_digits acc after_digit (c # cs) =
     (if c = CHR ''_'' then (if after_digit then read_digits acc False cs else None)
      else case digit_val c of
             None \<Rightarrow> None
           | Some d \<Rightarrow> read_digits (10 * acc + d) True cs)"

definition int_of_text :: "string \<Rightarrow> error + int" where
  "int_of_text s =
     (case strip s of
        [] \<Rightarrow> Inl (ValueError_literal s)
      | c # cs \<Rightarrow>
          if c = CHR ''-'' then
            (case read_digits 0 False cs of None \<Rightarrow> Inl (ValueError_literal s)
                                          | Some n \<Rightarrow> Inr (- int n))
          else if c = CHR ''+'' then
            (case read_digits 0 False cs of None \<Rightarrow> Inl (ValueError_literal s)
                                          | Some n \<Rightarrow> Inr (int n))
          else
            (case read_digits 0 False (c # cs) of None \<Rightarrow> Inl (ValueError_literal s)
                                                | Some n \<Rightarrow> Inr (int n)))"

fun py_int :: "pyval \<Rightarrow> error + int" where
  "py_int PyNone = Inl TypeError_int"
| "py_int (PyInt i) = Inr i"
| "py_int (PyStr s) = int_of_text s"

section \<open>Parameter types\<close>

text \<open>
  \<^verbatim>\<open>
  def uint32(value):
      value = int(value)
      if value > 4294967295:
          raise ValueError("{} exceeds upper bound for uint32".format(value))
      if value < 0:
          raise ValueError("{} below lower bound for uint32".format(value))
      return value
  \<close>
  and the same for \<^verbatim>\<open>uint64\<close> with 18446744073709551615.
\<close>

definition uint32 :: "pyval \<Rightarrow> error + int" where
  "uint32 v =
     (case py_int v of
        Inl e \<Rightarrow> Inl e
      | Inr value \<Rightarrow>
          if value > 4294967295 then Inl (ValueError_upper value)
          else if value < 0 then Inl (ValueError_lower value)
          else Inr value)"

definition uint64 :: "pyval \<Rightarrow> error + int" where
  "uint64 v =
     (case py_int v of
        Inl e \<Rightarrow> Inl e
      | Inr value \<Rightarrow>
          if value > 18446744073709551615 then Inl (ValueError_upper value)
          else if value < 0 then Inl (ValueError_lower value)
          else Inr value)"

text \<open>
  \<^verbatim>\<open>PARAMETER_TYPES = {"string": str, "uint32": uint32, "uint64": uint64}\<close>:
  the keys, and the handler looked up under a key and applied; a key outside the
  table is a \<^verbatim>\<open>KeyError\<close>.
\<close>

definition PARAMETER_TYPES :: "string list" where
  "PARAMETER_TYPES = [''string'', ''uint32'', ''uint64'']"

definition parameter_type :: "string \<Rightarrow> pyval \<Rightarrow> error + pyval" where
  "parameter_type t v =
     (if t = ''uint32'' then map_sum id PyInt (uint32 v)
      else if t = ''uint64'' then map_sum id PyInt (uint64 v)
      else if t = ''string'' then Inr (PyStr (py_str v))
      else Inl (KeyError_lookup t))"

section \<open>Identifiers\<close>

definition ascii_letters :: string where
  "ascii_letters = ''abcdefghijklmnopqrstuvwxyzABCDEFGHIJKLMNOPQRSTUVWXYZ''"

definition digits :: string where
  "digits = ''0123456789''"

text \<open>
  \<^verbatim>\<open>
  identifier = "".join(char for char in name
                     if char in string.ascii_letters + string.digits + "_")
  try:
      while identifier[0] not in string.ascii_letters + "_":
          identifier = identifier[1:]
  except IndexError:
      raise NameError(...)
  return identifier
  \<close>
  \<open>strip_leading\<close> is the loop; \<open>None\<close> is the \<^verbatim>\<open>IndexError\<close> of
  \<^verbatim>\<open>identifier[0]\<close> on the empty string.
\<close>

fun strip_leading :: "string \<Rightarrow> string option" where
  "strip_leading [] = None"
| "strip_leading (c # cs) =
     (if c \<notin> set (ascii_letters @ ''_'') then strip_leading cs else Some (c # cs))"

definition ensure_identifier :: "string \<Rightarrow> error + string" where
  "ensure_identifier name =
     (let identifier = filter (\<lambda>char. char \<in> set (ascii_letters @ digits @ ''_'')) name
      in case strip_leading identifier of
           None \<Rightarrow> Inl (NameError_identifier name)
         | Some identifier' \<Rightarrow> Inr identifier')"

text \<open>
  The words of the specification: the characters of \<open>[A-Za-z0-9_]\<close>, and the ones an
  identifier may start with.
\<close>

definition spec_word_char :: "char \<Rightarrow> bool" where
  "spec_word_char c \<longleftrightarrow>
     (CHR ''A'' \<le> c \<and> c \<le> CHR ''Z'') \<or> (CHR ''a'' \<le> c \<and> c \<le> CHR ''z'') \<or>
     (CHR ''0'' \<le> c \<and> c \<le> CHR ''9'') \<or> c = CHR ''_''"

definition spec_start_char :: "char \<Rightarrow> bool" where
  "spec_start_char c \<longleftrightarrow>
     (CHR ''A'' \<le> c \<and> c \<le> CHR ''Z'') \<or> (CHR ''a'' \<le> c \<and> c \<le> CHR ''z'') \<or> c = CHR ''_''"

definition spec_sanitize :: "string \<Rightarrow> string" where
  "spec_sanitize name = dropWhile (\<lambda>c. \<not> spec_start_char c) (filter spec_word_char name)"

section \<open>Method parameters\<close>

text \<open>
  A parameter description of the interface listing: a dictionary with the keys
  \<^verbatim>\<open>name\<close>, \<^verbatim>\<open>type\<close>, \<^verbatim>\<open>optional\<close> and, sometimes, \<^verbatim>\<open>description\<close>.
\<close>

record param_spec =
  p_name :: string
  p_type :: string
  p_optional :: bool
  p_description :: "string option"

datatype warning =
    UnknownParameterType string
      \<comment> \<open>FutureWarning: No parameter type handler for ..., interpreting as 'string'\<close>
  | StaleVersionPinned string string int int
      \<comment> \<open>FutureWarning: interface/method is pinned to version v but the most recent is w\<close>

text \<open>
  The loop of \<^verbatim>\<open>_MethodParameters.__init__\<close> over \<^verbatim>\<open>specs\<close>, with the dictionary
  \<^verbatim>\<open>unordered\<close> (insertion ordered) and the warnings issued so far. An exception ends
  the construction; the warnings issued before it are not part of the result.
\<close>

fun collect_params ::
  "param_spec list \<Rightarrow> (string \<times> param_spec) list \<Rightarrow> warning list
     \<Rightarrow> error + ((string \<times> param_spec) list \<times> warning list)" where
  "collect_params [] unordered ws = Inr (unordered, ws)"
| "collect_params (spec # specs) unordered ws =
     (if p_name spec = ''key'' then collect_params specs unordered ws
      else case ensure_identifier (p_name spec) of
             Inl e \<Rightarrow> Inl e
           | Inr ident \<Rightarrow>
               if map_of unordered ident \<noteq> None then Inl (NameError_in_use ident)
               else
                 let described = spec\<lparr>p_name := ident,
                       p_description :=
                         Some (case p_description spec of None \<Rightarrow> [] | Some d \<Rightarrow> d)\<rparr>
                 in if p_type spec \<notin> set PARAMETER_TYPES
                    then collect_params specs
                           (AList.update ident (described\<lparr>p_type := ''string''\<rparr>) unordered)
                           (ws @ [UnknownParameterType (p_type spec)])
                    else collect_params specs (AList.update ident described unordered) ws)"

text \<open>\<^verbatim>\<open>sorted(unordered.items(), key=lambda a: a[0])\<close>: the table, ordered by name.\<close>

definition MethodParameters ::
  "param_spec list \<Rightarrow> error + ((string \<times> param_spec) list \<times> warning list)" where
  "MethodParameters specs =
     (case collect_params specs [] [] of
        Inl e \<Rightarrow> Inl e
      | Inr (unordered, ws) \<Rightarrow> Inr (sort_key fst unordered, ws))"

fun join :: "string \<Rightarrow> string list \<Rightarrow> string" where
  "join sep [] = []"
| "join sep [x] = x"
| "join sep (x # y # ys) = x @ sep @ join sep (y # ys)"

text \<open>
  \<^verbatim>\<open>_MethodParameters.signature\<close>: the names of the signature in order, and the
  string they are joined to.
\<close>

definition signature_names :: "(string \<times> param_spec) list \<Rightarrow> string list" where
  "signature_names table =
     (let mandatory = filter (\<lambda>param. \<not> p_optional param) (map snd table);
          optional = filter p_optional (map snd table)
      in [''self''] @ map p_name mandatory @ map p_name optional)"

definition signature :: "(string \<times> param_spec) list \<Rightarrow> string" where
  "signature table =
     (let mandatory = filter (\<lambda>param. \<not> p_optional param) (map snd table);
          optional = filter p_optional (map snd table)
      in join '', '' ([''self''] @ map p_name mandatory
                       @ map (\<lambda>param. p_name param @ ''=None'') optional))"

text \<open>
  \<^verbatim>\<open>_MethodParameters.validate\<close>. \<^verbatim>\<open>kwargs.get(name)\<close> is \<^verbatim>\<open>None\<close> for a missing
  key; \<^verbatim>\<open>values\<close> is the dictionary built so far.
\<close>

fun validate_loop ::
  "param_spec list \<Rightarrow> (string \<times> pyval) list \<Rightarrow> (string \<times> pyval) list
     \<Rightarrow> error + (string \<times> pyval) list" where
  "validate_loop [] kwargs vals = Inr vals"
| "validate_loop (arg # args) kwargs vals =
     (let v = (case map_of kwargs (p_name arg) of None \<Rightarrow> PyNone | Some x \<Rightarrow> x)
      in if v = PyNone then
           (if \<not> p_optional arg then Inl (TypeError_missing (p_name arg))
            else validate_loop args kwargs vals)
         else case parameter_type (p_type arg) v of
                Inl e \<Rightarrow> Inl e
              | Inr coerced \<Rightarrow>
                  validate_loop args kwargs (AList.update (p_name arg) coerced vals))"

definition validate ::
  "(string \<times> param_spec) list \<Rightarrow> (string \<times> pyval) list \<Rightarrow> error + (string \<times> pyval) list" where
  "validate table kwargs = validate_loop (map snd table) kwargs []"

section \<open>Methods\<close>

record method_spec =
  m_name :: string
  m_version :: int
  m_httpmethod :: string
  m_parameters :: "param_spec list"

text \<open>
  The synthesized function object: its attributes \<^verbatim>\<open>name\<close>, \<^verbatim>\<open>version\<close> and
  \<^verbatim>\<open>__doc__\<close>, and what its closure holds (the HTTP method and the parameter table).
\<close>

record api_method =
  meth_name :: string
  meth_version :: int
  meth_httpmethod :: string
  meth_args :: "(string \<times> param_spec) list"
  meth_doc :: "string option"

text \<open>
  \<^verbatim>\<open>compile\<close> is given \<^verbatim>\<open>def NAME(SIGNATURE): return method(**locals())\<close>. The
  names are identifiers already; what is left to reject is a reserved word (Python 3)
  and an argument that repeats \<^verbatim>\<open>self\<close>.
\<close>

definition reserved_words :: "string list" where
  "reserved_words =
     [''False'', ''None'', ''True'', ''and'', ''as'', ''assert'', ''async'', ''await'',
      ''break'', ''class'', ''continue'', ''def'', ''del'', ''elif'', ''else'', ''except'',
      ''finally'', ''for'', ''from'', ''global'', ''if'', ''import'', ''in'', ''is'',
      ''lambda'', ''nonlocal'', ''not'', ''or'', ''pass'', ''raise'', ''return'', ''try'',
      ''while'', ''with'', ''yield'', ''__debug__'']"

definition compiles :: "string \<Rightarrow> (string \<times> param_spec) list \<Rightarrow> bool" where
  "compiles fname table \<longleftrightarrow>
     fname \<notin> set reserved_words \<and>
     (\<forall>a \<in> set (map fst table). a \<notin> set reserved_words \<and> a \<noteq> ''self'')"

definition param_doc :: "string \<times> param_spec \<Rightarrow> string" where
  "param_doc entry =
     '':param '' @ p_type (snd entry) @ '' '' @ fst entry @ '': ''
       @ (case p_description (snd entry) of None \<Rightarrow> [] | Some d \<Rightarrow> d)"

definition make_method :: "method_spec \<Rightarrow> error + (api_method \<times> warning list)" where
  "make_method spec =
     (case ensure_identifier (m_name spec) of
        Inl e \<Rightarrow> Inl e
      | Inr ident \<Rightarrow>
          (case MethodParameters (m_parameters spec) of
             Inl e \<Rightarrow> Inl e
           | Inr (table, ws) \<Rightarrow>
               if \<not> compiles ident table
               then Inl (SyntaxError_compile (ident @ ''('' @ signature table @ '')''))
               else Inr (\<lparr>meth_name = ident,
                          meth_version = m_version spec,
                          meth_httpmethod = m_httpmethod spec,
                          meth_args = table,
                          meth_doc = (if table = [] then None
                                      else Some (join [CHR 0x0A] (map param_doc table)))\<rparr>,
                         ws)))"

text \<open>
  Calling the synthesized function with keyword arguments: Python binds the
  arguments to the signature (an unknown keyword or a missing mandatory argument is a
  \<^verbatim>\<open>TypeError\<close>), \<^verbatim>\<open>locals()\<close> then holds every parameter (an optional one left
  out is \<^verbatim>\<open>None\<close>) and \<^verbatim>\<open>validate\<close> gives the request parameters.
\<close>

definition call_locals ::
  "(string \<times> param_spec) list \<Rightarrow> (string \<times> pyval) list \<Rightarrow> error + (string \<times> pyval) list" where
  "call_locals table kwargs =
     (case filter (\<lambda>k. k \<notin> set (map fst table)) (map fst kwargs) of
        k # _ \<Rightarrow> Inl (TypeError_call k)
      | [] \<Rightarrow>
          (case filter (\<lambda>a. \<not> p_optional (snd a) \<and> map_of kwargs (fst a) = None) table of
             a # _ \<Rightarrow> Inl (TypeError_call (fst a))
           | [] \<Rightarrow>
               Inr (map (\<lambda>a. (fst a, case map_of kwargs (fst a) of None \<Rightarrow> PyNone
                                                                 | Some v \<Rightarrow> v)) table)))"

definition call_params ::
  "api_method \<Rightarrow> (string \<times> pyval) list \<Rightarrow> error + (string \<times> pyval) list" where
  "call_params m kwargs =
     (case call_locals (meth_args m) kwargs of
        Inl e \<Rightarrow> Inl e
      | Inr locals \<Rightarrow> validate (meth_args m) locals)"

section \<open>Interfaces\<close>

record interface_spec =
  i_name :: string
  i_methods :: "method_spec list"

text \<open>
  The body of the loop of \<^verbatim>\<open>make_interface\<close> after \<^verbatim>\<open>make_method\<close>, on the two
  dictionaries \<^verbatim>\<open>methods\<close> and \<^verbatim>\<open>max_versions\<close>:
  \<^verbatim>\<open>
  pinned_version = versions.get(method.name)
  if pinned_version is None:
      current_method = methods.get(method.name)
      if (current_method is not None
              and method.version < current_method.version):
          method = current_method
      methods[method.name] = method
  else:
      if method.version == pinned_version:
          methods[method.name] = method
  max_versions[method.name] = max(method.version,
                                  max_versions.get(method.name, 0))
  \<close>
\<close>

definition bind_method ::
  "(string \<times> int) list \<Rightarrow> api_method
     \<Rightarrow> (string \<times> api_method) list \<times> (string \<times> int) list
     \<Rightarrow> (string \<times> api_method) list \<times> (string \<times> int) list" where
  "bind_method versions m st =
     (case st of (methods, max_versions) \<Rightarrow>
        (case map_of versions (meth_name m) of
           None \<Rightarrow>
             (let m' = (case map_of methods (meth_name m) of
                          None \<Rightarrow> m
                        | Some current_method \<Rightarrow>
                            if meth_version m < meth_version current_method
                            then current_method else m)
              in (AList.update (meth_name m') m' methods,
                  AList.update (meth_name m')
                    (max (meth_version m')
                       (case map_of max_versions (meth_name m') of None \<Rightarrow> 0 | Some x \<Rightarrow> x))
                    max_versions))
         | Some pinned_version \<Rightarrow>
             ((if meth_version m = pinned_version
               then AList.update (meth_name m) m methods else methods),
              AList.update (meth_name m)
                (max (meth_version m)
                   (case map_of max_versions (meth_name m) of None \<Rightarrow> 0 | Some x \<Rightarrow> x))
                max_versions)))"

fun bind_methods ::
  "(string \<times> int) list \<Rightarrow> method_spec list
     \<Rightarrow> (string \<times> api_method) list \<times> (string \<times> int) list \<Rightarrow> warning list
     \<Rightarrow> error + (((string \<times> api_method) list \<times> (string \<times> int) list) \<times> warning list)" where
  "bind_methods versions [] st ws = Inr (st, ws)"
| "bind_methods versions (method_spec # rest) st ws =
     (case make_method method_spec of
        Inl e \<Rightarrow> Inl e
      | Inr (m, ws') \<Rightarrow> bind_methods versions rest (bind_method versions m st) (ws @ ws'))"

text \<open>
  The second loop: one warning for every bound method below the highest version seen.
  \<^verbatim>\<open>max_versions[method.name]\<close> is a subscript, a \<^verbatim>\<open>KeyError\<close> on a missing key.
\<close>

fun stale_warnings ::
  "string \<Rightarrow> api_method list \<Rightarrow> (string \<times> int) list \<Rightarrow> error + warning list" where
  "stale_warnings iname [] max_versions = Inr []"
| "stale_warnings iname (m # ms) max_versions =
     (case map_of max_versions (meth_name m) of
        None \<Rightarrow> Inl (KeyError_lookup (meth_name m))
      | Some newest \<Rightarrow>
          (case stale_warnings iname ms max_versions of
             Inl e \<Rightarrow> Inl e
           | Inr ws \<Rightarrow>
               Inr ((if meth_version m < newest
                     then [StaleVersionPinned iname (meth_name m) (meth_version m) newest]
                     else []) @ ws)))"

text \<open>
  The class that \<^verbatim>\<open>type(name, (BaseInterface,), attrs)\<close> builds: its name, its
  attributes, and the dictionary \<^verbatim>\<open>methods\<close> that the \<^verbatim>\<open>__iter__\<close> of
  \<^verbatim>\<open>attrs\<close> iterates over. \<^verbatim>\<open>attrs.update(methods)\<close> comes last, so a method
  called \<^verbatim>\<open>name\<close> or \<^verbatim>\<open>__iter__\<close> replaces the attribute of that name.
\<close>

datatype attr = AttrName string | AttrIter | AttrMethod api_method

record interface =
  iface_class :: string
  iface_attrs :: "(string \<times> attr) list"
  iface_methods :: "(string \<times> api_method) list"

definition make_interface ::
  "interface_spec \<Rightarrow> (string \<times> int) list \<Rightarrow> error + (interface \<times> warning list)" where
  "make_interface spec versions =
     (case bind_methods versions (i_methods spec) ([], []) [] of
        Inl e \<Rightarrow> Inl e
      | Inr ((methods, max_versions), ws) \<Rightarrow>
          (case stale_warnings (i_name spec) (map snd methods) max_versions of
             Inl e \<Rightarrow> Inl e
           | Inr stale \<Rightarrow>
               Inr (\<lparr>iface_class = i_name spec,
                     iface_attrs =
                       fold (\<lambda>entry. AList.update (fst entry) (AttrMethod (snd entry))) methods
                         [(''name'', AttrName (i_name spec)), (''__iter__'', AttrIter)],
                     iface_methods = methods\<rparr>,
                    ws @ stale)))"

text \<open>
  \<^verbatim>\<open>make_interfaces\<close>: the module's \<^verbatim>\<open>__all__\<close> and its interface classes by
  name (\<^verbatim>\<open>setattr\<close> replaces a class of the same name). The versions of an
  interface that has no entry are \<^verbatim>\<open>{}\<close>.
\<close>

record interfaces_module =
  mod_all :: "string list"
  mod_classes :: "(string \<times> interface) list"

fun make_interfaces_loop ::
  "interface_spec list \<Rightarrow> (string \<times> (string \<times> int) list) list
     \<Rightarrow> interfaces_module \<Rightarrow> warning list
     \<Rightarrow> error + (interfaces_module \<times> warning list)" where
  "make_interfaces_loop [] versions module ws = Inr (module, ws)"
| "make_interfaces_loop (interface_spec # rest) versions module ws =
     (case make_interface interface_spec
             (case map_of versions (i_name interface_spec) of None \<Rightarrow> [] | Some v \<Rightarrow> v) of
        Inl e \<Rightarrow> Inl e
      | Inr (interface, ws') \<Rightarrow>
          make_interfaces_loop rest versions
            \<lparr>mod_all = mod_all module @ [iface_class interface],
             mod_classes = AList.update (iface_class interface) interface (mod_classes module)\<rparr>
            (ws @ ws'))"

definition make_interfaces ::
  "interface_spec list \<Rightarrow> (string \<times> (string \<times> int) list) list
     \<Rightarrow> error + (interfaces_module \<times> warning list)" where
  "make_interfaces api_list versions =
     make_interfaces_loop api_list versions \<lparr>mod_all = [], mod_classes = []\<rparr> []"

section \<open>The API client\<close>

definition API_RESPONSE_FORMATS :: "string set" where
  "API_RESPONSE_FORMATS = {''json'', ''vdf'', ''xml''}"

definition api_root :: string where
  "api_root = ''https://api.steampowered.com/''"

text \<open>
  A response formatter: a callable with an attribute \<^verbatim>\<open>format\<close>. What it parses
  the response text to is left open (\<open>'r\<close>).
\<close>

record 'r formatter =
  fmt_format :: string
  fmt_call :: "string \<Rightarrow> error + 'r"

record 'r api =
  api_key :: "string option"
  api_format :: "'r formatter"
  api_interfaces :: "(string \<times> interface) list"

text \<open>
  \<^verbatim>\<open>_bind_interfaces\<close> instantiates every interface class of the module under its
  name; an instance has the attributes of its class.
\<close>

definition bind_interfaces :: "interfaces_module \<Rightarrow> (string \<times> interface) list" where
  "bind_interfaces module = mod_classes module"

subsection \<open>\<^verbatim>\<open>pin_versions\<close>\<close>

text \<open>
  \<^verbatim>\<open>interface.name\<close> and \<^verbatim>\<open>for method in interface\<close> go through the class
  attributes \<^verbatim>\<open>name\<close> and \<^verbatim>\<open>__iter__\<close>. Where a synthesized method has replaced
  one of them, what Python does next (a method object as dictionary key, a request
  sent by \<^verbatim>\<open>__iter__\<close>) is not described here: the result is \<open>OutsideModel\<close>.
\<close>

definition interface_name :: "interface \<Rightarrow> error + string" where
  "interface_name i =
     (case map_of (iface_attrs i) ''name'' of
        Some (AttrName n) \<Rightarrow> Inr n
      | _ \<Rightarrow> Inl (OutsideModel ''name''))"

definition interface_iter :: "interface \<Rightarrow> error + api_method list" where
  "interface_iter i =
     (case map_of (iface_attrs i) ''__iter__'' of
        Some AttrIter \<Rightarrow> Inr (map snd (iface_methods i))
      | _ \<Rightarrow> Inl (OutsideModel ''__iter__''))"

definition method_versions :: "api_method list \<Rightarrow> (string \<times> int) list" where
  "method_versions ms = fold (\<lambda>m. AList.update (meth_name m) (meth_version m)) ms []"

fun pin_versions_loop ::
  "interface list \<Rightarrow> (string \<times> (string \<times> int) list) list
     \<Rightarrow> error + (string \<times> (string \<times> int) list) list" where
  "pin_versions_loop [] versions = Inr versions"
| "pin_versions_loop (i # rest) versions =
     (case interface_iter i of
        Inl e \<Rightarrow> Inl e
      | Inr ms \<Rightarrow>
          (case interface_name i of
             Inl e \<Rightarrow> Inl e
           | Inr n \<Rightarrow> pin_versions_loop rest (AList.update n (method_versions ms) versions)))"

definition pin_versions :: "'r api \<Rightarrow> error + (string \<times> (string \<times> int) list) list" where
  "pin_versions self = pin_versions_loop (map snd (api_interfaces self)) []"

text \<open>The version a catalog binds for a method of an interface, if it binds one.\<close>

definition bound_version :: "(string \<times> interface) list \<Rightarrow> string \<Rightarrow> string \<Rightarrow> int option" where
  "bound_version catalog iname mname =
     (case map_of catalog iname of
        None \<Rightarrow> None
      | Some i \<Rightarrow> map_option meth_version (map_of (iface_methods i) mname))"

subsection \<open>\<^verbatim>\<open>request\<close>\<close>

text \<open>
  Parameter dictionaries are objects: a store maps references to their contents, so
  that a change made through one reference is seen by whoever holds it. \<open>calls\<close> is
  the log of what the HTTP session was asked, in order.
\<close>

type_synonym ref = nat

record world =
  store :: "ref \<Rightarrow> (string \<times> pyval) list"
  next_ref :: ref
  calls :: "(string \<times> string \<times> (string \<times> pyval) list) list"

definition new_dict :: "world \<Rightarrow> ref \<times> world" where
  "new_dict w = (next_ref w, w\<lparr>store := (store w)(next_ref w := []), next_ref := Suc (next_ref w)\<rparr>)"

definition setitem :: "ref \<Rightarrow> string \<Rightarrow> pyval \<Rightarrow> world \<Rightarrow> world" where
  "setitem r k v w = w\<lparr>store := (store w)(r := AList.update k v (store w r))\<rparr>"

definition delitem :: "ref \<Rightarrow> string \<Rightarrow> world \<Rightarrow> world" where
  "delitem r k w = w\<lparr>store := (store w)(r := AList.delete k (store w r))\<rparr>"

text \<open>
  \<^verbatim>\<open>
  if params is None:
      params = {}
  if format is None:
      format = self.format
  path = "{interface}/{method}/v{version}/".format(**locals())
  if format.format not in API_RESPONSE_FORMATS:
      raise ValueError(...)
  params["format"] = format.format
  if "key" in params:
      del params["key"]
  if self.key:
      params["key"] = self.key
  return format(self._session.request(http_method,
                                      self.api_root + path, params).text)
  \<close>
  \<open>transport\<close> stands for \<^verbatim>\<open>self._session.request(...).text\<close>. \<^verbatim>\<open>self.key\<close> is
  true when it is a string that is not empty.
\<close>

definition request ::
  "(string \<Rightarrow> string \<Rightarrow> (string \<times> pyval) list \<Rightarrow> error + string)
     \<Rightarrow> 'r api \<Rightarrow> string \<Rightarrow> string \<Rightarrow> string \<Rightarrow> int
     \<Rightarrow> ref option \<Rightarrow> 'r formatter option \<Rightarrow> world \<Rightarrow> (error + 'r) \<times> world" where
  "request transport self http_method interface method version params format w =
     (case (case params of None \<Rightarrow> new_dict w | Some r \<Rightarrow> (r, w)) of (params', w1) \<Rightarrow>
        (let format' = (case format of None \<Rightarrow> api_format self | Some f \<Rightarrow> f);
             path = interface @ ''/'' @ method @ ''/v'' @ str_int version @ ''/''
         in if fmt_format format' \<notin> API_RESPONSE_FORMATS
            then (Inl (ValueError_formatter (fmt_format format')), w1)
            else
              (let w2 = setitem params' ''format'' (PyStr (fmt_format format')) w1;
                   w3 = (if map_of (store w2 params') ''key'' \<noteq> None
                         then delitem params' ''key'' w2 else w2);
                   w4 = (case api_key self of
                           None \<Rightarrow> w3
                         | Some k \<Rightarrow> if k \<noteq> [] then setitem params' ''key'' (PyStr k) w3 else w3);
                   sent = store w4 params';
                   w5 = w4\<lparr>calls := calls w4 @ [(http_method, api_root @ path, sent)]\<rparr>
               in (case transport http_method (api_root @ path) sent of
                     Inl e \<Rightarrow> Inl e
                   | Inr text \<Rightarrow> fmt_call format' text,
                   w5))))"

subsection \<open>Notions the properties of \<^verbatim>\<open>request\<close> are stated with\<close>

text \<open>
  The formatter a call uses, the URL it asks for, the \<^verbatim>\<open>key\<close> entry the client
  stands for, and the steps of \<open>request\<close> on the contents of \<^verbatim>\<open>params\<close> alone.
\<close>

definition chosen_format :: "'r api \<Rightarrow> 'r formatter option \<Rightarrow> 'r formatter" where
  "chosen_format self format = (case format of None \<Rightarrow> api_format self | Some f \<Rightarrow> f)"

definition request_url :: "string \<Rightarrow> string \<Rightarrow> int \<Rightarrow> string" where
  "request_url interface method version =
     api_root @ interface @ ''/'' @ method @ ''/v'' @ str_int version @ ''/''"

definition client_key :: "'r api \<Rightarrow> pyval option" where
  "client_key self =
     (case api_key self of None \<Rightarrow> None | Some k \<Rightarrow> if k = [] then None else Some (PyStr k))"

definition sent_params ::
  "'r api \<Rightarrow> string \<Rightarrow> (string \<times> pyval) list \<Rightarrow> (string \<times> pyval) list" where
  "sent_params self tag d =
     (let d1 = AList.update ''format'' (PyStr tag) d;
          d2 = (if map_of d1 ''key'' \<noteq> None then AList.delete ''key'' d1 else d1)
      in case api_key self of
           None \<Rightarrow> d2
         | Some k \<Rightarrow> if k \<noteq> [] then AList.update ''key'' (PyStr k) d2 else d2)"

section \<open>Notions the properties of interface synthesis are stated with\<close>

text \<open>
  The methods that \<open>make_method\<close> makes of a list of descriptions, with the warnings
  issued on the way, or the first exception: what the loop of \<open>make_interface\<close> calls
  \<^verbatim>\<open>method\<close>, one after the other.
\<close>

fun make_methods :: "method_spec list \<Rightarrow> error + (api_method list \<times> warning list)" where
  "make_methods [] = Inr ([], [])"
| "make_methods (method_spec # rest) =
     (case make_method method_spec of
        Inl e \<Rightarrow> Inl e
      | Inr (m, ws) \<Rightarrow>
          (case make_methods rest of
             Inl e \<Rightarrow> Inl e
           | Inr (ms, ws') \<Rightarrow> Inr (m # ms, ws @ ws')))"

text \<open>The versions that a list of methods has under a name, in order.\<close>

definition versions_of :: "string \<Rightarrow> api_method list \<Rightarrow> int list" where
  "versions_of n ms = map meth_version (filter (\<lambda>m. meth_name m = n) ms)"

text \<open>
  The versions an interface description declares for a method name: those of the
  method descriptions whose name is sanitized to it.
\<close>

definition declared_versions :: "interface_spec \<Rightarrow> string \<Rightarrow> int list" where
  "declared_versions spec n =
     map m_version (filter (\<lambda>s. ensure_identifier (m_name s) = Inr n) (i_methods spec))"

text \<open>
  What holds of a name \<open>n\<close> after the loop of \<open>make_interface\<close> has gone through the
  methods \<open>ms\<close>, in the state \<open>st\<close> of \<^verbatim>\<open>methods\<close> and \<^verbatim>\<open>max_versions\<close>: a method
  bound under \<open>n\<close> is one of \<open>ms\<close> and is called \<open>n\<close>; without a pin it has the greatest
  version declared for \<open>n\<close>, with a pin it has the pinned version, if that is declared,
  and else nothing is bound; and \<^verbatim>\<open>max_versions\<close> holds a bound of the versions of
  \<open>n\<close> that is one of them or 0.
\<close>

definition bind_inv ::
  "(string \<times> int) list \<Rightarrow> api_method list
     \<Rightarrow> (string \<times> api_method) list \<times> (string \<times> int) list \<Rightarrow> string \<Rightarrow> bool" where
  "bind_inv V ms st n \<longleftrightarrow>
     (\<forall>m. map_of (fst st) n = Some m \<longrightarrow> m \<in> set ms \<and> meth_name m = n) \<and>
     (case map_of V n of
        None \<Rightarrow>
          (if versions_of n ms = [] then map_of (fst st) n = None
           else \<exists>m. map_of (fst st) n = Some m \<and> meth_version m \<in> set (versions_of n ms)
                  \<and> (\<forall>v \<in> set (versions_of n ms). v \<le> meth_version m))
      | Some p \<Rightarrow>
          (if p \<in> set (versions_of n ms)
           then \<exists>m. map_of (fst st) n = Some m \<and> meth_version m = p
           else map_of (fst st) n = None)) \<and>
     (if versions_of n ms = [] then map_of (snd st) n = None
      else \<exists>x. map_of (snd st) n = Some x \<and> 0 \<le> x \<and> (\<forall>v \<in> set (versions_of n ms). v \<le> x)
             \<and> (x = 0 \<or> x \<in> set (versions_of n ms)))"

section \<open>Example values\<close>

text \<open>
  A formatter that returns the response text as it is, under the tag \<^verbatim>\<open>yaml\<close> and
  under \<^verbatim>\<open>json\<close>; a client with a key and one without; a transport that answers
  with the URL it was asked for; and a store in which the caller's dictionary, at
  reference 0, holds a \<^verbatim>\<open>key\<close> of its own.
\<close>

definition yaml_format :: "string formatter" where
  "yaml_format = \<lparr>fmt_format = ''yaml'', fmt_call = Inr\<rparr>"

definition json_text :: "string formatter" where
  "json_text = \<lparr>fmt_format = ''json'', fmt_call = Inr\<rparr>"

definition client :: "string api" where
  "client = \<lparr>api_key = Some ''SECRET'', api_format = json_text, api_interfaces = []\<rparr>"

definition keyless :: "string api" where
  "keyless = \<lparr>api_key = None, api_format = json_text, api_interfaces = []\<rparr>"

definition echo :: "string \<Rightarrow> string \<Rightarrow> (string \<times> pyval) list \<Rightarrow> error + string" where
  "echo http_method url params = Inr url"

definition caller_world :: world where
  "caller_world =
     \<lparr>store = (\<lambda>r. if r = 0 then [(''key'', PyStr ''MINE''), (''steamid'', PyInt 7)] else []),
      next_ref = 1, calls = []\<rparr>"

text \<open>
  The method of the specification's example: \<^verbatim>\<open>a\<close> is an optional string and
  \<^verbatim>\<open>b\<close> a mandatory uint32, with any descriptions, listed in either order.
\<close>

definition param_a :: "string option \<Rightarrow> param_spec" where
  "param_a d = \<lparr>p_name = ''a'', p_type = ''string'', p_optional = True, p_description = d\<rparr>"

definition param_b :: "string option \<Rightarrow> param_spec" where
  "param_b d = \<lparr>p_name = ''b'', p_type = ''uint32'', p_optional = False, p_description = d\<rparr>"

definition method_ab :: "string option \<Rightarrow> string option \<Rightarrow> bool \<Rightarrow> method_spec" where
  "method_ab da db b_first =
     \<lparr>m_name = ''GetThing'', m_version = 1, m_httpmethod = ''GET'',
      m_parameters = (if b_first then [param_b db, param_a da] else [param_a da, param_b db])\<rparr>"

section \<open>Properties\<close>

subsection \<open>Parameter types\<close>

text \<open>
  Claim C9. For every integer argument \<open>n\<close>, \<open>uint32\<close> returns \<open>n\<close> exactly when
  \<open>0 \<le> n \<le> 4294967295\<close>, and otherwise raises the \<^verbatim>\<open>ValueError\<close> of the bound
  that \<open>n\<close> is beyond; \<open>uint64\<close> does the same with the bound 18446744073709551615.
  For any argument \<open>v\<close>, the coercion succeeds with \<open>k\<close> exactly when \<^verbatim>\<open>int(v)\<close> is
  \<open>k\<close> and \<open>k\<close> lies in the range.
\<close>

theorem uint_bounds:
  "uint32 (PyInt n) =
     (if 0 \<le> n \<and> n \<le> 4294967295 then Inr n
      else if n > 4294967295 then Inl (ValueError_upper n) else Inl (ValueError_lower n))
   \<and> uint64 (PyInt n) =
     (if 0 \<le> n \<and> n \<le> 18446744073709551615 then Inr n
      else if n > 18446744073709551615 then Inl (ValueError_upper n) else Inl (ValueError_lower n))
   \<and> (uint32 v = Inr k \<longleftrightarrow> py_int v = Inr k \<and> 0 \<le> k \<and> k \<le> 4294967295)
   \<and> (uint64 v = Inr k \<longleftrightarrow> py_int v = Inr k \<and> 0 \<le> k \<and> k \<le> 18446744073709551615)"
  by (auto simp: uint32_def uint64_def split: sum.splits)

theorem uint_bounds_witness:
  "uint32 (PyInt 4294967295) = Inr 4294967295
   \<and> uint32 (PyInt 4294967296) = Inl (ValueError_upper 4294967296)
   \<and> uint32 (PyInt (- 1)) = Inl (ValueError_lower (- 1))
   \<and> uint32 (PyInt 0) = Inr 0
   \<and> uint64 (PyInt 18446744073709551615) = Inr 18446744073709551615
   \<and> uint64 (PyInt 18446744073709551616) = Inl (ValueError_upper 18446744073709551616)
   \<and> uint64 (PyInt (- 1)) = Inl (ValueError_lower (- 1))"
  using uint_bounds [of 4294967295] uint_bounds [of 4294967296] uint_bounds [of "- 1"]
    uint_bounds [of 0] uint_bounds [of 18446744073709551615]
    uint_bounds [of 18446744073709551616]
  by simp

subsection \<open>Identifiers\<close>

lemma word_char_iff: "(c \<in> set (ascii_letters @ digits @ ''_'')) = spec_word_char c"
  unfolding ascii_letters_def digits_def spec_word_char_def less_eq_char_def
  by (cases c) (simp only: of_char_Char, auto)

lemma start_char_iff: "(c \<notin> set (ascii_letters @ ''_'')) = (\<not> spec_start_char c)"
  unfolding ascii_letters_def spec_start_char_def less_eq_char_def
  by (cases c) (simp only: of_char_Char, auto)

lemma strip_leading_dropWhile:
  "strip_leading s =
     (if dropWhile (\<lambda>c. \<not> spec_start_char c) s = [] then None
      else Some (dropWhile (\<lambda>c. \<not> spec_start_char c) s))"
proof (induction s)
  case Nil
  show ?case by simp
next
  case (Cons a s)
  show ?case
  proof (cases "spec_start_char a")
    case True
    then show ?thesis by (simp only: strip_leading.simps start_char_iff) simp
  next
    case False
    then show ?thesis using Cons by (simp only: strip_leading.simps start_char_iff) simp
  qed
qed

lemma ensure_identifier_sanitize:
  "ensure_identifier name =
     (if spec_sanitize name = [] then Inl (NameError_identifier name)
      else Inr (spec_sanitize name))"
  unfolding ensure_identifier_def spec_sanitize_def Let_def word_char_iff
  by (simp only: strip_leading_dropWhile) simp

lemma ensure_identifier_foobar: "ensure_identifier ''foo-bar!'' = Inr ''foobar''"
  by (simp add: ensure_identifier_def ascii_letters_def digits_def)

lemma ensure_identifier_bangs: "ensure_identifier ''!!!'' = Inl (NameError_identifier ''!!!'')"
  by (simp add: ensure_identifier_def ascii_letters_def digits_def)

text \<open>
  Claim C8. For every name, \<open>ensure_identifier\<close> returns the name with every
  character outside \<open>[A-Za-z0-9_]\<close> removed and then the leading characters removed up
  to the first letter or underscore, and raises the \<^verbatim>\<open>NameError\<close> when nothing is
  left. \<^verbatim>\<open>foo-bar!\<close> gives \<^verbatim>\<open>foobar\<close>; \<^verbatim>\<open>!!!\<close> raises, and so does the
  construction of a parameter table with a parameter of that name.
\<close>

theorem ensure_identifier_spec:
  "ensure_identifier name =
     (if spec_sanitize name = [] then Inl (NameError_identifier name)
      else Inr (spec_sanitize name))
   \<and> ensure_identifier ''foo-bar!'' = Inr ''foobar''
   \<and> ensure_identifier ''!!!'' = Inl (NameError_identifier ''!!!'')
   \<and> MethodParameters [\<lparr>p_name = ''!!!'', p_type = t, p_optional = opt, p_description = d\<rparr>]
       = Inl (NameError_identifier ''!!!'')"
  by (simp add: ensure_identifier_sanitize [symmetric] ensure_identifier_foobar
      ensure_identifier_bangs MethodParameters_def)

theorem ensure_identifier_spec_witness:
  "ensure_identifier ''9 lives'' = Inr ''lives'' \<and> spec_sanitize ''9 lives'' = ''lives''"
proof -
  have "spec_sanitize ''9 lives'' = ''lives''"
    by (simp add: spec_sanitize_def spec_word_char_def spec_start_char_def less_eq_char_def)
  then show ?thesis
    using ensure_identifier_spec [of "''9 lives''"] by simp
qed

subsection \<open>Requests\<close>

lemma map_of_sent_params:
  "map_of (sent_params self tag d) =
     ((map_of d)(''format'' \<mapsto> PyStr tag))(''key'' := client_key self)"
  by (auto simp: sent_params_def client_key_def Let_def AList.update_conv' AList.delete_conv'
      fun_eq_iff split: option.split)

lemma request_invalid:
  assumes "fmt_format (chosen_format self format) \<notin> API_RESPONSE_FORMATS"
  shows "request transport self http_method interface method version params format w =
     (Inl (ValueError_formatter (fmt_format (chosen_format self format))),
      (case params of None \<Rightarrow> snd (new_dict w) | Some r \<Rightarrow> w))"
  using assms
  by (simp add: request_def chosen_format_def Let_def split: option.split prod.split)

lemma request_valid:
  assumes "fmt_format (chosen_format self format) \<in> API_RESPONSE_FORMATS"
  shows "request transport self http_method interface method version params format w =
     (case (case params of None \<Rightarrow> new_dict w | Some r \<Rightarrow> (r, w)) of (p, w1) \<Rightarrow>
        (let d = sent_params self (fmt_format (chosen_format self format)) (store w1 p)
         in (case transport http_method (request_url interface method version) d of
               Inl e \<Rightarrow> Inl e
             | Inr text \<Rightarrow> fmt_call (chosen_format self format) text,
             w1\<lparr>store := (store w1)(p := d),
                calls := calls w1 @ [(http_method, request_url interface method version, d)]\<rparr>)))"
  using assms
  unfolding request_def chosen_format_def [symmetric] request_url_def sent_params_def
  by (cases params; cases "api_key self")
    (simp_all add: Let_def setitem_def delitem_def new_dict_def)

lemma request_url_example:
  "request_url ''ISteamUser'' ''GetFriendList'' 1
     = ''https://api.steampowered.com/ISteamUser/GetFriendList/v1/''"
  by (simp add: request_url_def api_root_def str_int_def str_nat.simps digit_char_def)

text \<open>
  Claim C6. When the format tag of the formatter in use (the one given, else the
  client's) is not \<^verbatim>\<open>json\<close>, \<^verbatim>\<open>vdf\<close> or \<^verbatim>\<open>xml\<close>, \<open>request\<close> raises the
  \<^verbatim>\<open>ValueError\<close> about the formatter, the log of transport calls is as it was, and
  nothing has been written: the world is as before, but for the fresh dictionary that
  a call without \<^verbatim>\<open>params\<close> has made.
\<close>

theorem request_invalid_decoder:
  assumes "fmt_format (chosen_format self format) \<notin> API_RESPONSE_FORMATS"
  shows "fst (request transport self http_method interface method version params format w)
           = Inl (ValueError_formatter (fmt_format (chosen_format self format)))
       \<and> calls (snd (request transport self http_method interface method version params format w))
           = calls w
       \<and> snd (request transport self http_method interface method version params format w)
           = (case params of None \<Rightarrow> snd (new_dict w) | Some r \<Rightarrow> w)"
  using assms by (cases params) (simp_all add: request_invalid new_dict_def)

theorem request_invalid_decoder_witness:
  "fst (request echo client ''GET'' ''ISteamUser'' ''GetFriendList'' 1 (Some 0) (Some yaml_format)
          caller_world) = Inl (ValueError_formatter ''yaml'')
   \<and> calls (snd (request echo client ''GET'' ''ISteamUser'' ''GetFriendList'' 1 (Some 0)
          (Some yaml_format) caller_world)) = []
   \<and> store (snd (request echo client ''GET'' ''ISteamUser'' ''GetFriendList'' 1 (Some 0)
          (Some yaml_format) caller_world)) 0 = [(''key'', PyStr ''MINE''), (''steamid'', PyInt 7)]"
proof -
  have "fmt_format (chosen_format client (Some yaml_format)) \<notin> API_RESPONSE_FORMATS"
    by (simp add: chosen_format_def yaml_format_def API_RESPONSE_FORMATS_def)
  from request_invalid_decoder [OF this, of echo "''GET''" "''ISteamUser''" "''GetFriendList''" 1
      "Some 0" caller_world]
  show ?thesis
    by (simp add: chosen_format_def yaml_format_def caller_world_def)
qed

text \<open>
  Claim C5. When the format tag is an allowed one, \<open>request\<close> makes exactly one
  transport call, its result is that call's response through the formatter, and the
  \<^verbatim>\<open>key\<close> entry of the parameters sent is the client's key, or missing when the
  client has none (\<^verbatim>\<open>None\<close> or the empty string): whatever \<^verbatim>\<open>params\<close> held under
  \<^verbatim>\<open>key\<close> has no part in it.
\<close>

theorem request_key:
  assumes "fmt_format (chosen_format self format) \<in> API_RESPONSE_FORMATS"
  shows "\<exists>sent.
      calls (snd (request transport self http_method interface method version params format w))
        = calls w @ [(http_method, request_url interface method version, sent)]
    \<and> fst (request transport self http_method interface method version params format w)
        = (case transport http_method (request_url interface method version) sent of
             Inl e \<Rightarrow> Inl e
           | Inr text \<Rightarrow> fmt_call (chosen_format self format) text)
    \<and> map_of sent ''key'' = client_key self"
  using assms
  by (cases params) (simp_all add: request_valid new_dict_def Let_def map_of_sent_params)

theorem request_key_witness:
  "(\<exists>sent.
      calls (snd (request echo client ''GET'' ''ISteamUser'' ''GetFriendList'' 1 (Some 0) None
                    caller_world))
        = [(''GET'', ''https://api.steampowered.com/ISteamUser/GetFriendList/v1/'', sent)]
    \<and> map_of sent ''key'' = Some (PyStr ''SECRET''))
   \<and> (\<exists>sent.
      calls (snd (request echo keyless ''GET'' ''ISteamUser'' ''GetFriendList'' 1 (Some 0) None
                    caller_world))
        = [(''GET'', ''https://api.steampowered.com/ISteamUser/GetFriendList/v1/'', sent)]
    \<and> map_of sent ''key'' = None)"
proof -
  have c: "fmt_format (chosen_format client None) \<in> API_RESPONSE_FORMATS"
    and k: "fmt_format (chosen_format keyless None) \<in> API_RESPONSE_FORMATS"
    by (simp_all add: chosen_format_def client_def keyless_def json_text_def
        API_RESPONSE_FORMATS_def)
  have empty: "calls caller_world = []"
    by (simp add: caller_world_def)
  have keys: "client_key client = Some (PyStr ''SECRET'')" "client_key keyless = None"
    by (simp_all add: client_key_def client_def keyless_def)
  obtain s1 where "calls (snd (request echo client ''GET'' ''ISteamUser'' ''GetFriendList'' 1
        (Some 0) None caller_world))
      = calls caller_world @ [(''GET'', request_url ''ISteamUser'' ''GetFriendList'' 1, s1)]"
    and "map_of s1 ''key'' = client_key client"
    using request_key [OF c, of echo "''GET''" "''ISteamUser''" "''GetFriendList''" 1
        "Some 0" caller_world] by blast
  moreover obtain s2 where "calls (snd (request echo keyless ''GET'' ''ISteamUser''
        ''GetFriendList'' 1 (Some 0) None caller_world))
      = calls caller_world @ [(''GET'', request_url ''ISteamUser'' ''GetFriendList'' 1, s2)]"
    and "map_of s2 ''key'' = client_key keyless"
    using request_key [OF k, of echo "''GET''" "''ISteamUser''" "''GetFriendList''" 1
        "Some 0" caller_world] by blast
  ultimately show ?thesis
    by (simp only: empty keys request_url_example append_Nil) blast
qed

text \<open>
  Claim C10. When the format tag is an allowed one and the caller passes its own
  dictionary (the reference \<open>r\<close>), the dictionary at \<open>r\<close> after the call is the
  caller's with \<^verbatim>\<open>format\<close> set to the tag and \<^verbatim>\<open>key\<close> set to the client's key, or
  deleted when the client has none; every other dictionary of the store is untouched.
  This holds whether or not the transport or the formatter then raise.
\<close>

theorem request_mutates_params:
  assumes "fmt_format (chosen_format self format) \<in> API_RESPONSE_FORMATS"
  shows "map_of (store (snd (request transport self http_method interface method version
                              (Some r) format w)) r)
           = ((map_of (store w r))(''format'' \<mapsto> PyStr (fmt_format (chosen_format self format))))
               (''key'' := client_key self)
       \<and> (\<forall>r'. r' \<noteq> r \<longrightarrow>
            store (snd (request transport self http_method interface method version
                         (Some r) format w)) r' = store w r')"
  using assms
  by (simp add: request_valid Let_def map_of_sent_params)

theorem request_mutates_params_witness:
  "store (snd (request echo keyless ''GET'' ''ISteamUser'' ''GetFriendList'' 1 (Some 0) None
                 caller_world)) 0 = [(''steamid'', PyInt 7), (''format'', PyStr ''json'')]
   \<and> map_of (store (snd (request echo client ''GET'' ''ISteamUser'' ''GetFriendList'' 1 (Some 0)
                 None caller_world)) 0)
       = [''steamid'' \<mapsto> PyInt 7, ''format'' \<mapsto> PyStr ''json'', ''key'' \<mapsto> PyStr ''SECRET'']
   \<and> store (snd (request echo client ''GET'' ''ISteamUser'' ''GetFriendList'' 1 (Some 0) None
                 caller_world)) 1 = []"
proof -
  have c: "fmt_format (chosen_format client None) \<in> API_RESPONSE_FORMATS"
    and k: "fmt_format (chosen_format keyless None) \<in> API_RESPONSE_FORMATS"
    by (simp_all add: chosen_format_def client_def keyless_def json_text_def
        API_RESPONSE_FORMATS_def)
  have first: "store (snd (request echo keyless ''GET'' ''ISteamUser'' ''GetFriendList'' 1
      (Some 0) None caller_world)) 0 = [(''steamid'', PyInt 7), (''format'', PyStr ''json'')]"
    unfolding request_valid [OF k]
    by (simp add: sent_params_def chosen_format_def keyless_def json_text_def
        caller_world_def Let_def AList.delete_eq)
  have "client_key client = Some (PyStr ''SECRET'')"
    by (simp add: client_key_def client_def)
  moreover have "fmt_format (chosen_format client None) = ''json''"
    by (simp add: chosen_format_def client_def json_text_def)
  moreover have "store caller_world 0 = [(''key'', PyStr ''MINE''), (''steamid'', PyInt 7)]"
    "store caller_world 1 = []"
    by (simp_all add: caller_world_def)
  ultimately show ?thesis
    using first request_mutates_params [OF c, of echo "''GET''" "''ISteamUser''"
        "''GetFriendList''" 1 0 caller_world]
    by (auto simp: fun_eq_iff)
qed

subsection \<open>Signatures and validation\<close>

lemma ensure_a: "ensure_identifier ''a'' = Inr ''a''"
  by (simp add: ensure_identifier_def ascii_letters_def digits_def)
lemma ensure_b: "ensure_identifier ''b'' = Inr ''b''"
  by (simp add: ensure_identifier_def ascii_letters_def digits_def)
lemma ensure_GetThing: "ensure_identifier ''GetThing'' = Inr ''GetThing''"
  by (simp add: ensure_identifier_def ascii_letters_def digits_def)

lemma a_le_b: "''a'' \<le> ''b''" "\<not> ''b'' \<le> ''a''"
  by (simp_all add: less_eq_char_def less_char_def)

lemma MethodParameters_ab:
  "MethodParameters (m_parameters (method_ab da db b_first)) =
     Inr ([(''a'', param_a (Some (case da of None \<Rightarrow> [] | Some d \<Rightarrow> d))),
           (''b'', param_b (Some (case db of None \<Rightarrow> [] | Some d \<Rightarrow> d)))], [])"
  by (cases b_first)
    (simp_all add: method_ab_def MethodParameters_def param_a_def param_b_def ensure_a ensure_b
      PARAMETER_TYPES_def a_le_b)

lemma set_update_cases:
  "e \<in> set (AList.update k v al) \<Longrightarrow> e = (k, v) \<or> e \<in> set al"
  by (induction al) (auto split: if_splits)

lemma names_update:
  assumes "\<forall>e \<in> set al. p_name (snd e) = fst e" and "p_name v = k"
  shows "\<forall>e \<in> set (AList.update k v al). p_name (snd e) = fst e"
  using assms set_update_cases [of _ k v al] by fastforce

lemma collect_params_names:
  "collect_params specs unordered ws = Inr (table, ws') \<Longrightarrow>
   \<forall>e \<in> set unordered. p_name (snd e) = fst e \<Longrightarrow>
   \<forall>e \<in> set table. p_name (snd e) = fst e"
proof (induction specs arbitrary: unordered ws)
  case Nil
  then show ?case by simp
next
  case (Cons spec specs)
  show ?case
  proof (cases "p_name spec = ''key''")
    case True
    with Cons show ?thesis by simp
  next
    case False
    with Cons.prems(1) obtain ident where id: "ensure_identifier (p_name spec) = Inr ident"
      by (cases "ensure_identifier (p_name spec)") simp_all
    with False Cons.prems(1) have fresh: "map_of unordered ident = None"
      by (auto split: if_splits)
    define described where "described = spec\<lparr>p_name := ident,
      p_description := Some (case p_description spec of None \<Rightarrow> [] | Some d \<Rightarrow> d)\<rparr>"
    show ?thesis
    proof (cases "p_type spec \<in> set PARAMETER_TYPES")
      case True
      with False id fresh Cons.prems(1)
      have "collect_params specs (AList.update ident described unordered) ws = Inr (table, ws')"
        by (simp add: Let_def described_def)
      moreover have "\<forall>e \<in> set (AList.update ident described unordered). p_name (snd e) = fst e"
        by (rule names_update [OF Cons.prems(2)]) (simp add: described_def)
      ultimately show ?thesis by (rule Cons.IH)
    next
      case unknown: False
      with False id fresh Cons.prems(1)
      have "collect_params specs
              (AList.update ident (described\<lparr>p_type := ''string''\<rparr>) unordered)
              (ws @ [UnknownParameterType (p_type spec)]) = Inr (table, ws')"
        by (simp add: Let_def described_def)
      moreover have "\<forall>e \<in> set (AList.update ident (described\<lparr>p_type := ''string''\<rparr>) unordered).
          p_name (snd e) = fst e"
        by (rule names_update [OF Cons.prems(2)]) (simp add: described_def)
      ultimately show ?thesis by (rule Cons.IH)
    qed
  qed
qed

lemma MethodParameters_table:
  assumes "MethodParameters specs = Inr (table, ws)"
  shows "sorted (map fst table)" and "map (p_name \<circ> snd) table = map fst table"
proof -
  from assms obtain unordered where c: "collect_params specs [] [] = Inr (unordered, ws)"
    and t: "table = sort_key fst unordered"
    by (auto simp: MethodParameters_def split: sum.splits)
  show "sorted (map fst table)" by (simp add: t)
  from collect_params_names [OF c] have "\<forall>e \<in> set unordered. p_name (snd e) = fst e" by simp
  then show "map (p_name \<circ> snd) table = map fst table" by (simp add: t)
qed

lemma signature_sorted:
  assumes "MethodParameters specs = Inr (table, ws)"
  shows "sorted (map p_name (filter P (map snd table)))"
proof -
  have "sorted (map (p_name \<circ> snd) table)"
    unfolding MethodParameters_table(2) [OF assms] by (rule MethodParameters_table(1) [OF assms])
  then have "sorted (map (p_name \<circ> snd) (filter (P \<circ> snd) table))"
    by (rule sorted_filter)
  then show ?thesis by (simp add: filter_map comp_def)
qed

lemma make_method_ab:
  "make_method (method_ab da db b_first) =
     Inr (\<lparr>meth_name = ''GetThing'', meth_version = 1, meth_httpmethod = ''GET'',
           meth_args = [(''a'', param_a (Some (case da of None \<Rightarrow> [] | Some d \<Rightarrow> d))),
                        (''b'', param_b (Some (case db of None \<Rightarrow> [] | Some d \<Rightarrow> d)))],
           meth_doc = Some (join [CHR 0x0A]
             (map param_doc [(''a'', param_a (Some (case da of None \<Rightarrow> [] | Some d \<Rightarrow> d))),
                        (''b'', param_b (Some (case db of None \<Rightarrow> [] | Some d \<Rightarrow> d)))]))\<rparr>, [])"
proof -
  have "m_name (method_ab da db b_first) = ''GetThing''"
    "m_version (method_ab da db b_first) = 1" "m_httpmethod (method_ab da db b_first) = ''GET''"
    by (simp_all add: method_ab_def)
  moreover have "compiles ''GetThing'' [(''a'', x), (''b'', y)]" for x y
    by (simp add: compiles_def reserved_words_def)
  ultimately show ?thesis
    by (simp add: make_method_def ensure_GetThing MethodParameters_ab)
qed

lemma signature_ab: "signature [(''a'', param_a x), (''b'', param_b y)] = ''self, b, a=None''"
  by (simp add: signature_def param_a_def param_b_def)

lemma validate_ab:
  "validate [(''a'', param_a x), (''b'', param_b y)] [(''b'', PyInt 5)] = Inr [(''b'', PyInt 5)]"
  "validate [(''a'', param_a x), (''b'', param_b y)] [(''a'', PyNone), (''b'', PyInt 5)] = Inr [(''b'', PyInt 5)]"
  "validate [(''a'', param_a x), (''b'', param_b y)] [] = Inl (TypeError_missing ''b'')"
  by (simp_all add: validate_def param_a_def param_b_def parameter_type_def uint32_def)

lemma call_locals_ab:
  "call_locals [(''a'', param_a x), (''b'', param_b y)] [(''b'', PyInt 5)]
     = Inr [(''a'', PyNone), (''b'', PyInt 5)]"
  "call_locals [(''a'', param_a x), (''b'', param_b y)] [] = Inl (TypeError_call ''b'')"
  by (simp_all add: call_locals_def param_a_def param_b_def)

text \<open>
  Claim C7. In the signature of any parameter table that \<open>MethodParameters\<close> builds,
  \<^verbatim>\<open>self\<close> is followed by the mandatory parameters in alphabetical order and then by
  the optional ones, each with \<^verbatim>\<open>=None\<close>, in alphabetical order. For the method with
  an optional string \<^verbatim>\<open>a\<close> and a mandatory uint32 \<^verbatim>\<open>b\<close> (any descriptions, either
  order in the listing) the signature is \<^verbatim>\<open>self, b, a=None\<close>; called with only
  \<^verbatim>\<open>b=5\<close> the request parameters are \<^verbatim>\<open>{b: 5}\<close>, which is also what
  \<open>validate\<close> returns for \<^verbatim>\<open>{b: 5}\<close>; called with no argument it raises a
  \<^verbatim>\<open>TypeError\<close>, and so does \<open>validate\<close> on no arguments.
\<close>

theorem method_signature_and_validation:
  "(MethodParameters specs = Inr (table, ws) \<longrightarrow>
      signature table =
        join '', '' ([''self'']
          @ map p_name (filter (\<lambda>param. \<not> p_optional param) (map snd table))
          @ map (\<lambda>param. p_name param @ ''=None'') (filter p_optional (map snd table)))
      \<and> sorted (map p_name (filter (\<lambda>param. \<not> p_optional param) (map snd table)))
      \<and> sorted (map p_name (filter p_optional (map snd table))))
   \<and> (\<exists>m. make_method (method_ab da db b_first) = Inr (m, [])
        \<and> signature (meth_args m) = ''self, b, a=None''
        \<and> call_params m [(''b'', PyInt 5)] = Inr [(''b'', PyInt 5)]
        \<and> validate (meth_args m) [(''b'', PyInt 5)] = Inr [(''b'', PyInt 5)]
        \<and> call_params m [] = Inl (TypeError_call ''b'')
        \<and> validate (meth_args m) [] = Inl (TypeError_missing ''b'')
        \<and> class_of (TypeError_call ''b'') = TypeError
        \<and> class_of (TypeError_missing ''b'') = TypeError)"
proof (intro conjI impI)
  assume "MethodParameters specs = Inr (table, ws)"
  then show "sorted (map p_name (filter (\<lambda>param. \<not> p_optional param) (map snd table)))"
    and "sorted (map p_name (filter p_optional (map snd table)))"
    by (rule signature_sorted)+
next
  show "signature table =
        join '', '' ([''self'']
          @ map p_name (filter (\<lambda>param. \<not> p_optional param) (map snd table))
          @ map (\<lambda>param. p_name param @ ''=None'') (filter p_optional (map snd table)))"
    by (simp add: signature_def Let_def)
next
  show "\<exists>m. make_method (method_ab da db b_first) = Inr (m, [])
        \<and> signature (meth_args m) = ''self, b, a=None''
        \<and> call_params m [(''b'', PyInt 5)] = Inr [(''b'', PyInt 5)]
        \<and> validate (meth_args m) [(''b'', PyInt 5)] = Inr [(''b'', PyInt 5)]
        \<and> call_params m [] = Inl (TypeError_call ''b'')
        \<and> validate (meth_args m) [] = Inl (TypeError_missing ''b'')
        \<and> class_of (TypeError_call ''b'') = TypeError
        \<and> class_of (TypeError_missing ''b'') = TypeError"
    by (simp add: make_method_ab signature_ab validate_ab call_locals_ab call_params_def)
qed

theorem method_signature_and_validation_witness:
  "MethodParameters [param_b None, param_a None]
     = Inr ([(''a'', param_a (Some [])), (''b'', param_b (Some []))], [])
   \<and> sorted (map p_name (filter (\<lambda>param. \<not> p_optional param)
        (map snd [(''a'', param_a (Some [])), (''b'', param_b (Some []))])))
   \<and> signature [(''a'', param_a (Some [])), (''b'', param_b (Some []))] = ''self, b, a=None''"
proof -
  have t: "MethodParameters [param_b None, param_a None]
     = Inr ([(''a'', param_a (Some [])), (''b'', param_b (Some []))], [])"
    using MethodParameters_ab [of None None True] by (simp add: method_ab_def)
  with method_signature_and_validation [of "[param_b None, param_a None]"
      "[(''a'', param_a (Some [])), (''b'', param_b (Some []))]" "[]" None None True]
  show ?thesis
    by (simp add: signature_ab)
qed

subsection \<open>Interface synthesis\<close>

lemma bind_methods_make_methods:
  "bind_methods V specs st ws =
     (case make_methods specs of
        Inl e \<Rightarrow> Inl e
      | Inr (ms, ws') \<Rightarrow> Inr (fold (bind_method V) ms st, ws @ ws'))"
  by (induction specs arbitrary: st ws) (auto split: sum.splits)

lemma make_method_name:
  "make_method s = Inr (m, ws) \<Longrightarrow>
   ensure_identifier (m_name s) = Inr (meth_name m) \<and> meth_version m = m_version s"
  by (auto simp: make_method_def split: sum.splits if_splits)

lemma make_methods_versions:
  "make_methods specs = Inr (ms, ws) \<Longrightarrow>
   versions_of n ms = map m_version (filter (\<lambda>s. ensure_identifier (m_name s) = Inr n) specs)"
proof (induction specs arbitrary: ms ws)
  case Nil
  then show ?case by (simp add: versions_of_def)
next
  case (Cons s specs)
  from Cons.prems obtain m w ms' w' where m: "make_method s = Inr (m, w)"
    and r: "make_methods specs = Inr (ms', w')" and ms: "ms = m # ms'"
    by (auto split: sum.splits)
  from Cons.IH [OF r] make_method_name [OF m] show ?case
    by (auto simp: versions_of_def ms)
qed

lemma versions_of_snoc:
  "versions_of n (ms @ [m]) = versions_of n ms @ (if meth_name m = n then [meth_version m] else [])"
  by (simp add: versions_of_def)

lemma bind_method_other:
  assumes "\<forall>c. map_of (fst st) (meth_name m) = Some c \<longrightarrow> meth_name c = meth_name m"
    and "n \<noteq> meth_name m"
  shows "map_of (fst (bind_method V m st)) n = map_of (fst st) n"
    and "map_of (snd (bind_method V m st)) n = map_of (snd st) n"
proof -
  obtain M X where st: "st = (M, X)" by (cases st)
  have pick: "meth_name (case map_of M (meth_name m) of None \<Rightarrow> m
        | Some c \<Rightarrow> if meth_version m < meth_version c then c else m) = meth_name m"
  proof (cases "map_of M (meth_name m)")
    case None
    then show ?thesis by simp
  next
    case (Some c)
    then have "map_of (fst st) (meth_name m) = Some c" by (simp add: st)
    with assms(1) have "meth_name c = meth_name m" by blast
    with Some show ?thesis by simp
  qed
  show "map_of (fst (bind_method V m st)) n = map_of (fst st) n"
    using assms(2) pick
    by (cases "map_of V (meth_name m)")
      (simp_all add: bind_method_def st Let_def AList.update_conv')
  show "map_of (snd (bind_method V m st)) n = map_of (snd st) n"
    using assms(2) pick
    by (cases "map_of V (meth_name m)")
      (simp_all add: bind_method_def st Let_def AList.update_conv')
qed

lemma bind_inv_other:
  assumes "bind_inv V ms st (meth_name m)" and "bind_inv V ms st n" and "n \<noteq> meth_name m"
  shows "bind_inv V (ms @ [m]) (bind_method V m st) n"
proof -
  have nm: "\<forall>c. map_of (fst st) (meth_name m) = Some c \<longrightarrow> meth_name c = meth_name m"
    using assms(1) unfolding bind_inv_def by blast
  have v: "versions_of n (ms @ [m]) = versions_of n ms"
    using assms(3) by (simp add: versions_of_snoc)
  note a = bind_method_other(1) [OF nm assms(3)] and b = bind_method_other(2) [OF nm assms(3)]
  show ?thesis
    using assms(2) unfolding bind_inv_def v a b
    by (auto split: option.splits if_splits)
qed

lemma bind_method_same_unpinned:
  assumes "\<forall>c. map_of (fst st) (meth_name m) = Some c \<longrightarrow> meth_name c = meth_name m"
    and "map_of V (meth_name m) = None"
  shows "map_of (fst (bind_method V m st)) (meth_name m) =
           Some (case map_of (fst st) (meth_name m) of
                   None \<Rightarrow> m
                 | Some c \<Rightarrow> if meth_version m < meth_version c then c else m)"
    and "map_of (snd (bind_method V m st)) (meth_name m) =
           Some (max (case map_of (fst st) (meth_name m) of
                        None \<Rightarrow> meth_version m
                      | Some c \<Rightarrow> if meth_version m < meth_version c then meth_version c
                                 else meth_version m)
                   (case map_of (snd st) (meth_name m) of None \<Rightarrow> 0 | Some x \<Rightarrow> x))"
proof -
  obtain M X where st: "st = (M, X)" by (cases st)
  show "map_of (fst (bind_method V m st)) (meth_name m) =
           Some (case map_of (fst st) (meth_name m) of
                   None \<Rightarrow> m
                 | Some c \<Rightarrow> if meth_version m < meth_version c then c else m)"
  proof (cases "map_of M (meth_name m)")
    case None
    then show ?thesis
      by (simp add: bind_method_def st assms(2) AList.update_conv')
  next
    case (Some c)
    then have "map_of (fst st) (meth_name m) = Some c" by (simp add: st)
    with assms(1) have "meth_name c = meth_name m" by blast
    with Some show ?thesis
      by (simp add: bind_method_def st assms(2) AList.update_conv')
  qed
  show "map_of (snd (bind_method V m st)) (meth_name m) =
           Some (max (case map_of (fst st) (meth_name m) of
                        None \<Rightarrow> meth_version m
                      | Some c \<Rightarrow> if meth_version m < meth_version c then meth_version c
                                 else meth_version m)
                   (case map_of (snd st) (meth_name m) of None \<Rightarrow> 0 | Some x \<Rightarrow> x))"
  proof (cases "map_of M (meth_name m)")
    case None
    then show ?thesis
      by (simp add: bind_method_def st assms(2) AList.update_conv')
  next
    case (Some c)
    then have "map_of (fst st) (meth_name m) = Some c" by (simp add: st)
    with assms(1) have "meth_name c = meth_name m" by blast
    with Some show ?thesis
      by (simp add: bind_method_def st assms(2) AList.update_conv')
  qed
qed

lemma bind_method_same_pinned:
  assumes "map_of V (meth_name m) = Some p"
  shows "map_of (fst (bind_method V m st)) (meth_name m) =
           (if meth_version m = p then Some m else map_of (fst st) (meth_name m))"
    and "map_of (snd (bind_method V m st)) (meth_name m) =
           Some (max (meth_version m)
                   (case map_of (snd st) (meth_name m) of None \<Rightarrow> 0 | Some x \<Rightarrow> x))"
proof -
  obtain M X where st: "st = (M, X)" by (cases st)
  show "map_of (fst (bind_method V m st)) (meth_name m) =
           (if meth_version m = p then Some m else map_of (fst st) (meth_name m))"
    by (simp add: bind_method_def st assms AList.update_conv')
  show "map_of (snd (bind_method V m st)) (meth_name m) =
           Some (max (meth_version m)
                   (case map_of (snd st) (meth_name m) of None \<Rightarrow> 0 | Some x \<Rightarrow> x))"
    by (simp add: bind_method_def st assms AList.update_conv')
qed

lemma bind_inv_unpinnedI:
  assumes "map_of V n = None" and "map_of (fst st) n = Some k" and "k \<in> set ms"
    and "meth_name k = n" and "meth_version k \<in> set (versions_of n ms)"
    and "\<forall>v \<in> set (versions_of n ms). v \<le> meth_version k"
    and "map_of (snd st) n = Some x" and "0 \<le> x"
    and "\<forall>v \<in> set (versions_of n ms). v \<le> x" and "x = 0 \<or> x \<in> set (versions_of n ms)"
  shows "bind_inv V ms st n"
proof -
  have "versions_of n ms \<noteq> []" using assms(5) by auto
  then show ?thesis
    unfolding bind_inv_def using assms by simp
qed

lemma bind_invD:
  assumes "bind_inv V ms st n"
  shows "map_of (fst st) n = Some k \<Longrightarrow> k \<in> set ms \<and> meth_name k = n"
    and "map_of V n = None \<Longrightarrow> versions_of n ms = [] \<Longrightarrow> map_of (fst st) n = None"
    and "map_of V n = None \<Longrightarrow> versions_of n ms \<noteq> [] \<Longrightarrow>
           \<exists>k. map_of (fst st) n = Some k \<and> meth_version k \<in> set (versions_of n ms)
             \<and> (\<forall>v \<in> set (versions_of n ms). v \<le> meth_version k)"
    and "map_of V n = Some p \<Longrightarrow> p \<in> set (versions_of n ms) \<Longrightarrow>
           \<exists>k. map_of (fst st) n = Some k \<and> meth_version k = p"
    and "map_of V n = Some p \<Longrightarrow> p \<notin> set (versions_of n ms) \<Longrightarrow> map_of (fst st) n = None"
    and "versions_of n ms = [] \<Longrightarrow> map_of (snd st) n = None"
    and "versions_of n ms \<noteq> [] \<Longrightarrow>
           \<exists>x. map_of (snd st) n = Some x \<and> 0 \<le> x \<and> (\<forall>v \<in> set (versions_of n ms). v \<le> x)
             \<and> (x = 0 \<or> x \<in> set (versions_of n ms))"
  using assms unfolding bind_inv_def by (simp_all split: option.splits if_splits)

lemma bind_inv_same_unpinned:
  assumes inv: "bind_inv V ms st (meth_name m)" and V: "map_of V (meth_name m) = None"
  shows "bind_inv V (ms @ [m]) (bind_method V m st) (meth_name m)"
proof -
  have nm: "\<forall>c. map_of (fst st) (meth_name m) = Some c \<longrightarrow> meth_name c = meth_name m"
    using bind_invD(1) [OF inv] by blast
  note step = bind_method_same_unpinned [OF nm V]
  have vs: "versions_of (meth_name m) (ms @ [m]) = versions_of (meth_name m) ms @ [meth_version m]"
    by (simp add: versions_of_snoc)
  show ?thesis
  proof (cases "versions_of (meth_name m) ms = []")
    case True
    have old: "map_of (fst st) (meth_name m) = None" "map_of (snd st) (meth_name m) = None"
      using bind_invD(2) [OF inv V True] bind_invD(6) [OF inv True] by blast+
    show ?thesis
    proof (rule bind_inv_unpinnedI [OF V])
      show "map_of (fst (bind_method V m st)) (meth_name m) = Some m"
        by (simp add: step old)
      show "map_of (snd (bind_method V m st)) (meth_name m) = Some (max (meth_version m) 0)"
        by (simp add: step old)
    qed (auto simp: vs True max_def)
  next
    case False
    from bind_invD(3) [OF inv V False]
    obtain c where c: "map_of (fst st) (meth_name m) = Some c"
      and cv: "meth_version c \<in> set (versions_of (meth_name m) ms)"
      and cmax: "\<forall>v \<in> set (versions_of (meth_name m) ms). v \<le> meth_version c"
      by blast
    from bind_invD(1) [OF inv c] have cin: "c \<in> set ms" and cn: "meth_name c = meth_name m"
      by blast+
    from bind_invD(7) [OF inv False]
    obtain x where x: "map_of (snd st) (meth_name m) = Some x" and x0: "0 \<le> x"
      and xmax: "\<forall>v \<in> set (versions_of (meth_name m) ms). v \<le> x"
      and xin: "x = 0 \<or> x \<in> set (versions_of (meth_name m) ms)"
      by blast
    have cx: "meth_version c \<le> x" using cv xmax by blast
    show ?thesis
    proof (cases "meth_version m < meth_version c")
      case True
      show ?thesis
      proof (rule bind_inv_unpinnedI [OF V])
        show "map_of (fst (bind_method V m st)) (meth_name m) = Some c"
          by (simp add: step c True)
        show "map_of (snd (bind_method V m st)) (meth_name m) = Some x"
          using cx by (simp add: step c x True)
        show "\<forall>v \<in> set (versions_of (meth_name m) (ms @ [m])). v \<le> meth_version c"
          using cmax True by (simp add: vs)
        show "\<forall>v \<in> set (versions_of (meth_name m) (ms @ [m])). v \<le> x"
          using xmax True cx by (simp add: vs)
        show "x = 0 \<or> x \<in> set (versions_of (meth_name m) (ms @ [m]))"
          using xin by (auto simp: vs)
        show "c \<in> set (ms @ [m])" using cin by simp
        show "meth_name c = meth_name m" by (rule cn)
        show "meth_version c \<in> set (versions_of (meth_name m) (ms @ [m]))"
          using cv by (simp add: vs)
        show "0 \<le> x" by (rule x0)
      qed
    next
      case older: False
      show ?thesis
      proof (rule bind_inv_unpinnedI [OF V])
        show "map_of (fst (bind_method V m st)) (meth_name m) = Some m"
          by (simp add: step c older)
        show "map_of (snd (bind_method V m st)) (meth_name m) = Some (max (meth_version m) x)"
          by (simp add: step c x older)
        show "\<forall>v \<in> set (versions_of (meth_name m) (ms @ [m])). v \<le> meth_version m"
          using cmax older by (auto simp: vs)
        show "\<forall>v \<in> set (versions_of (meth_name m) (ms @ [m])). v \<le> max (meth_version m) x"
          using xmax by (auto simp: vs)
        show "max (meth_version m) x = 0
            \<or> max (meth_version m) x \<in> set (versions_of (meth_name m) (ms @ [m]))"
          using xin by (auto simp: vs max_def)
        show "0 \<le> max (meth_version m) x" using x0 by simp
        show "m \<in> set (ms @ [m])" by simp
        show "meth_name m = meth_name m" by (rule refl)
        show "meth_version m \<in> set (versions_of (meth_name m) (ms @ [m]))"
          by (simp add: vs)
      qed
    qed
  qed
qed

lemma bind_invI:
  assumes "\<And>k. map_of (fst st) n = Some k \<Longrightarrow> k \<in> set ms \<and> meth_name k = n"
    and "map_of V n = None \<Longrightarrow> versions_of n ms = [] \<Longrightarrow> map_of (fst st) n = None"
    and "map_of V n = None \<Longrightarrow> versions_of n ms \<noteq> [] \<Longrightarrow>
           \<exists>k. map_of (fst st) n = Some k \<and> meth_version k \<in> set (versions_of n ms)
             \<and> (\<forall>v \<in> set (versions_of n ms). v \<le> meth_version k)"
    and "\<And>p. map_of V n = Some p \<Longrightarrow> p \<in> set (versions_of n ms) \<Longrightarrow>
           \<exists>k. map_of (fst st) n = Some k \<and> meth_version k = p"
    and "\<And>p. map_of V n = Some p \<Longrightarrow> p \<notin> set (versions_of n ms) \<Longrightarrow>
           map_of (fst st) n = None"
    and "versions_of n ms = [] \<Longrightarrow> map_of (snd st) n = None"
    and "versions_of n ms \<noteq> [] \<Longrightarrow>
           \<exists>x. map_of (snd st) n = Some x \<and> 0 \<le> x \<and> (\<forall>v \<in> set (versions_of n ms). v \<le> x)
             \<and> (x = 0 \<or> x \<in> set (versions_of n ms))"
  shows "bind_inv V ms st n"
proof -
  have 1: "\<forall>k. map_of (fst st) n = Some k \<longrightarrow> k \<in> set ms \<and> meth_name k = n"
    using assms(1) by blast
  have 2: "case map_of V n of
        None \<Rightarrow>
          (if versions_of n ms = [] then map_of (fst st) n = None
           else \<exists>m. map_of (fst st) n = Some m \<and> meth_version m \<in> set (versions_of n ms)
                  \<and> (\<forall>v \<in> set (versions_of n ms). v \<le> meth_version m))
      | Some p \<Rightarrow>
          (if p \<in> set (versions_of n ms)
           then \<exists>m. map_of (fst st) n = Some m \<and> meth_version m = p
           else map_of (fst st) n = None)"
  proof (cases "map_of V n")
    case None
    then show ?thesis using assms(2,3) by (cases "versions_of n ms = []") simp_all
  next
    case (Some p)
    then show ?thesis using assms(4,5) by (cases "p \<in> set (versions_of n ms)") simp_all
  qed
  have 3: "if versions_of n ms = [] then map_of (snd st) n = None
      else \<exists>x. map_of (snd st) n = Some x \<and> 0 \<le> x \<and> (\<forall>v \<in> set (versions_of n ms). v \<le> x)
             \<and> (x = 0 \<or> x \<in> set (versions_of n ms))"
    using assms(6,7) by (cases "versions_of n ms = []") simp_all
  from 1 2 3 show ?thesis unfolding bind_inv_def by blast
qed

lemma max_versions_step:
  assumes empty: "vs = [] \<Longrightarrow> X = None"
    and full: "vs \<noteq> [] \<Longrightarrow> \<exists>x. X = Some x \<and> 0 \<le> x \<and> (\<forall>u \<in> set vs. u \<le> x) \<and> (x = 0 \<or> x \<in> set vs)"
  shows "0 \<le> max v (case X of None \<Rightarrow> 0 | Some x \<Rightarrow> x)
       \<and> (\<forall>u \<in> set (vs @ [v]). u \<le> max v (case X of None \<Rightarrow> 0 | Some x \<Rightarrow> x))
       \<and> (max v (case X of None \<Rightarrow> 0 | Some x \<Rightarrow> (x::int)) = 0
            \<or> max v (case X of None \<Rightarrow> 0 | Some x \<Rightarrow> x) \<in> set (vs @ [v]))"
proof (cases "vs = []")
  case True
  with empty have "X = None" by simp
  with True show ?thesis by (auto simp: max_def)
next
  case False
  with full obtain x where "X = Some x" "0 \<le> x" "\<forall>u \<in> set vs. u \<le> x" "x = 0 \<or> x \<in> set vs"
    by blast
  then show ?thesis by (auto simp: max_def)
qed

lemma bind_inv_same_pinned:
  assumes inv: "bind_inv V ms st (meth_name m)" and V: "map_of V (meth_name m) = Some p"
  shows "bind_inv V (ms @ [m]) (bind_method V m st) (meth_name m)"
proof (rule bind_invI)
  note step = bind_method_same_pinned [OF V]
  have vs: "versions_of (meth_name m) (ms @ [m]) = versions_of (meth_name m) ms @ [meth_version m]"
    by (simp add: versions_of_snoc)
  show "k \<in> set (ms @ [m]) \<and> meth_name k = meth_name m"
    if "map_of (fst (bind_method V m st)) (meth_name m) = Some k" for k
  proof (cases "meth_version m = p")
    case True
    with that show ?thesis by (simp add: step)
  next
    case False
    with that have "map_of (fst st) (meth_name m) = Some k" by (simp add: step)
    from bind_invD(1) [OF inv this] show ?thesis by simp
  qed
  show "map_of (fst (bind_method V m st)) (meth_name m) = None"
    if "map_of V (meth_name m) = None"
    using that V by simp
  show "\<exists>k. map_of (fst (bind_method V m st)) (meth_name m) = Some k
          \<and> meth_version k \<in> set (versions_of (meth_name m) (ms @ [m]))
          \<and> (\<forall>v \<in> set (versions_of (meth_name m) (ms @ [m])). v \<le> meth_version k)"
    if "map_of V (meth_name m) = None"
    using that V by simp
  show "\<exists>k. map_of (fst (bind_method V m st)) (meth_name m) = Some k \<and> meth_version k = q"
    if "map_of V (meth_name m) = Some q" and "q \<in> set (versions_of (meth_name m) (ms @ [m]))" for q
  proof (cases "meth_version m = p")
    case True
    with that V show ?thesis by (simp add: step)
  next
    case False
    with that V have "p \<in> set (versions_of (meth_name m) ms)" by (auto simp: vs)
    from bind_invD(4) [OF inv V this] False that V show ?thesis by (simp add: step)
  qed
  show "map_of (fst (bind_method V m st)) (meth_name m) = None"
    if "map_of V (meth_name m) = Some q" and "q \<notin> set (versions_of (meth_name m) (ms @ [m]))" for q
  proof -
    from that V have "p \<notin> set (versions_of (meth_name m) ms)" "meth_version m \<noteq> p"
      by (auto simp: vs)
    with bind_invD(5) [OF inv V] show ?thesis by (simp add: step)
  qed
  show "map_of (snd (bind_method V m st)) (meth_name m) = None"
    if "versions_of (meth_name m) (ms @ [m]) = []"
    using that by (simp add: vs)
  show "\<exists>x. map_of (snd (bind_method V m st)) (meth_name m) = Some x \<and> 0 \<le> x
          \<and> (\<forall>v \<in> set (versions_of (meth_name m) (ms @ [m])). v \<le> x)
          \<and> (x = 0 \<or> x \<in> set (versions_of (meth_name m) (ms @ [m])))"
    unfolding step vs
    using max_versions_step [OF bind_invD(6) [OF inv] bind_invD(7) [OF inv], of "meth_version m"]
    by simp
qed

lemma bind_inv_fold: "bind_inv V ms (fold (bind_method V) ms ([], [])) n"
proof (induction ms arbitrary: n rule: rev_induct)
  case Nil
  show ?case by (rule bind_invI) (simp_all add: versions_of_def)
next
  case (snoc m ms)
  have f: "fold (bind_method V) (ms @ [m]) ([], [])
      = bind_method V m (fold (bind_method V) ms ([], []))"
    by simp
  show ?case
  proof (cases "n = meth_name m")
    case False
    show ?thesis unfolding f
      by (rule bind_inv_other [OF snoc.IH snoc.IH False])
  next
    case True
    show ?thesis
    proof (cases "map_of V (meth_name m)")
      case None
      show ?thesis unfolding f True by (rule bind_inv_same_unpinned [OF snoc.IH None])
    next
      case (Some p)
      show ?thesis unfolding f True by (rule bind_inv_same_pinned [OF snoc.IH Some])
    qed
  qed
qed

lemma bind_method_distinct:
  "distinct (map fst (fst st)) \<Longrightarrow> distinct (map fst (fst (bind_method V m st)))"
  by (cases st; cases "map_of V (meth_name m)")
    (simp_all add: bind_method_def Let_def AList.distinct_update)

lemma bind_fold_distinct: "distinct (map fst (fst (fold (bind_method V) ms ([], []))))"
  by (induction ms rule: rev_induct) (simp_all add: bind_method_distinct)

lemma versions_of_member:
  "m \<in> set ms \<Longrightarrow> meth_version m \<in> set (versions_of (meth_name m) ms)"
  by (auto simp: versions_of_def)

lemma stale_warnings_total:
  assumes "\<forall>m \<in> set ms. map_of X (meth_name m) \<noteq> None"
  shows "\<exists>ws. stale_warnings iname ms X = Inr ws \<and>
     (\<forall>w. w \<in> set ws \<longleftrightarrow>
        (\<exists>m x. m \<in> set ms \<and> map_of X (meth_name m) = Some x \<and> meth_version m < x
           \<and> w = StaleVersionPinned iname (meth_name m) (meth_version m) x))"
  using assms
proof (induction ms)
  case Nil
  then show ?case by simp
next
  case (Cons m ms)
  then obtain ws where ws: "stale_warnings iname ms X = Inr ws"
    and set: "\<forall>w. w \<in> set ws \<longleftrightarrow>
        (\<exists>m x. m \<in> set ms \<and> map_of X (meth_name m) = Some x \<and> meth_version m < x
           \<and> w = StaleVersionPinned iname (meth_name m) (meth_version m) x)"
    by auto
  from Cons.prems obtain x where x: "map_of X (meth_name m) = Some x" by auto
  let ?here = "if meth_version m < x
          then [StaleVersionPinned iname (meth_name m) (meth_version m) x] else []"
  have run: "stale_warnings iname (m # ms) X = Inr (?here @ ws)"
    by (simp add: ws x)
  have "w \<in> set (?here @ ws) \<longleftrightarrow>
        (\<exists>k y. k \<in> set (m # ms) \<and> map_of X (meth_name k) = Some y \<and> meth_version k < y
           \<and> w = StaleVersionPinned iname (meth_name k) (meth_version k) y)" for w
  proof
    assume "w \<in> set (?here @ ws)"
    then consider "meth_version m < x"
        "w = StaleVersionPinned iname (meth_name m) (meth_version m) x"
      | "w \<in> set ws"
      by (auto split: if_splits)
    then show "\<exists>k y. k \<in> set (m # ms) \<and> map_of X (meth_name k) = Some y \<and> meth_version k < y
           \<and> w = StaleVersionPinned iname (meth_name k) (meth_version k) y"
    proof cases
      case 1
      with x show ?thesis by (intro exI [of _ m] exI [of _ x]) simp
    next
      case 2
      with set obtain k y where "k \<in> set ms" "map_of X (meth_name k) = Some y"
        "meth_version k < y" "w = StaleVersionPinned iname (meth_name k) (meth_version k) y"
        by blast
      then show ?thesis by (intro exI [of _ k] exI [of _ y]) simp
    qed
  next
    assume "\<exists>k y. k \<in> set (m # ms) \<and> map_of X (meth_name k) = Some y \<and> meth_version k < y
           \<and> w = StaleVersionPinned iname (meth_name k) (meth_version k) y"
    then obtain k y where k: "k \<in> set (m # ms)" "map_of X (meth_name k) = Some y"
      "meth_version k < y" "w = StaleVersionPinned iname (meth_name k) (meth_version k) y"
      by blast
    show "w \<in> set (?here @ ws)"
    proof (cases "k = m")
      case True
      with k x show ?thesis by simp
    next
      case False
      with k have "k \<in> set ms" by simp
      with k set have "w \<in> set ws" by blast
      then show ?thesis by simp
    qed
  qed
  with run show ?case by blast
qed

end
